theory Spec2Isabelle
  imports Complex_Main "HOL-Library.Log_Nat"
begin

section \<open>Python numbers\<close>

text \<open>
  Python's \<^verbatim>\<open>int\<close> is unbounded and is HOL's \<open>int\<close>. A finite \<^verbatim>\<open>float\<close> is
  an IEEE 754 double and is modelled by the rational number it denotes; every operation
  that produces a float rounds the exact result to the nearest double, ties to even
  (\<open>fl\<close>). That is how CPython converts an \<^verbatim>\<open>int\<close> to a \<^verbatim>\<open>float\<close>, divides two
  \<^verbatim>\<open>int\<close>s with \<^verbatim>\<open>/\<close> and multiplies and divides floats. A result of magnitude
  \<open>2\<^sup>1\<^sup>0\<^sup>2\<^sup>4\<close> or more does not exist as a finite double: the conversion and the
  division of \<^verbatim>\<open>int\<close>s raise \<^verbatim>\<open>OverflowError\<close> at once, float arithmetic yields an
  infinity on which the enclosing \<^verbatim>\<open>int(...)\<close> raises \<^verbatim>\<open>OverflowError\<close>. In every
  expression of this program the float is passed to \<^verbatim>\<open>int(...)\<close> or formatted in the
  same statement, so both cases are the error value \<open>OverflowError\<close> of the statement.
\<close>

datatype error = OverflowError | ZeroDivisionError

datatype pynum = PInt int | PFloat rat

text \<open>The integer nearest to \<open>n / d\<close> for \<open>d > 0\<close>, ties to the even one.\<close>

definition round_half_even :: "int \<Rightarrow> int \<Rightarrow> int" where
  "round_half_even n d =
     (let q = n div d; r = n mod d in
      if 2 * r < d then q else if d < 2 * r then q + 1 else if even q then q else q + 1)"

text \<open>\<open>\<lfloor>log\<^sub>2 (n / d)\<rfloor>\<close> for positive \<open>n\<close> and \<open>d\<close>, from the bit lengths.\<close>

definition ilog2_quot :: "int \<Rightarrow> int \<Rightarrow> int" where
  "ilog2_quot n d =
     (let k = bitlen n - bitlen d in
      if (if 0 \<le> k then d * 2 ^ nat k \<le> n else d \<le> n * 2 ^ nat (- k)) then k else k - 1)"

text \<open>
  The double nearest to \<open>n / d\<close> (\<open>n \<ge> 0\<close>, \<open>d > 0\<close>), with no upper bound on the
  exponent: a significand of 53 bits, the unit in the last place never below
  \<open>2\<^sup>-\<^sup>1\<^sup>0\<^sup>7\<^sup>4\<close> (subnormal numbers).
\<close>

definition fl_quot :: "int \<Rightarrow> int \<Rightarrow> rat" where
  "fl_quot n d =
     (if n \<le> 0 then 0
      else
        let e = max (ilog2_quot n d - 52) (- 1074);
            m = (if 0 \<le> e then round_half_even n (d * 2 ^ nat e)
                 else round_half_even (n * 2 ^ nat (- e)) d)
        in if 0 \<le> e then of_int (m * 2 ^ nat e) else Fract m (2 ^ nat (- e)))"

definition fl :: "rat \<Rightarrow> rat" where
  "fl x = (case quotient_of x of (n, d) \<Rightarrow> if 0 \<le> n then fl_quot n d else - fl_quot (- n) d)"

definition fl_checked :: "rat \<Rightarrow> error + rat" where
  "fl_checked x = (let y = fl x in if of_int (2 ^ 1024) \<le> \<bar>y\<bar> then Inl OverflowError else Inr y)"

text \<open>\<^verbatim>\<open>float(i)\<close>, \<^verbatim>\<open>a / b\<close> on two \<^verbatim>\<open>int\<close>s, and \<^verbatim>\<open>int(x)\<close> on a float.\<close>

definition py_float_of_int :: "int \<Rightarrow> error + rat" where
  "py_float_of_int i = fl_checked (of_int i)"

definition py_int_truediv :: "int \<Rightarrow> int \<Rightarrow> error + rat" where
  "py_int_truediv a b = (if b = 0 then Inl ZeroDivisionError else fl_checked (Fract a b))"

definition py_trunc :: "rat \<Rightarrow> int" where
  "py_trunc r = (if 0 \<le> r then \<lfloor>r\<rfloor> else \<lceil>r\<rceil>)"

text \<open>\<^verbatim>\<open>str(n)\<close> for an \<^verbatim>\<open>int\<close>: the decimal digits, with a minus sign before them.\<close>

function str_nat :: "nat \<Rightarrow> string" where
  "str_nat n = (if n < 10 then [char_of (48 + n)] else str_nat (n div 10) @ [char_of (48 + n mod 10)])"
  by pat_completeness auto
termination
  by (relation "measure (\<lambda>n. n)") auto

definition str_int :: "int \<Rightarrow> string" where
  "str_int i = (if i < 0 then ''-'' @ str_nat (nat (- i)) else str_nat (nat i))"

definition nl :: string where
  "nl = [CHR 0x0A]"

text \<open>
  \<^verbatim>\<open>_fmt_bytes\<close>. The argument is \<open>None\<close> when the value is not an \<^verbatim>\<open>int\<close>. The loop
  divides by 1024 at most three times. \<^verbatim>\<open>f"{v:.1f}"\<close> prints the decimal with one
  fractional digit nearest to the exact value of the double, ties to even.
\<close>

function fmt_scale :: "rat \<Rightarrow> nat \<Rightarrow> rat \<times> nat" where
  "fmt_scale v i = (if 1024 \<le> v \<and> i < 3 then fmt_scale (fl (v / 1024)) (i + 1) else (v, i))"
  by pat_completeness auto
termination
  by (relation "measure (\<lambda>(v, i). 3 - i)") auto

definition fmt_1f :: "rat \<Rightarrow> string" where
  "fmt_1f v =
     (case quotient_of v of (n, d) \<Rightarrow>
        let t = round_half_even (n * 10) d in str_int (t div 10) @ ''.'' @ str_int (t mod 10))"

definition units :: "string list" where
  "units = [''B'', ''KB'', ''MB'', ''GB'']"

definition fmt_bytes :: "int option \<Rightarrow> error + string" where
  "fmt_bytes n =
     (case n of
        None \<Rightarrow> Inr ''unknown''
      | Some k \<Rightarrow>
          if k < 0 then Inr ''unknown''
          else
            case py_float_of_int k of
              Inl e \<Rightarrow> Inl e
            | Inr v0 \<Rightarrow>
                (case fmt_scale v0 0 of (v, i) \<Rightarrow>
                   if i = 0 then Inr (str_int (py_trunc v) @ '' '' @ units ! i)
                   else Inr (fmt_1f v @ '' '' @ units ! i)))"

section \<open>The chat platform and the shared registries\<close>

text \<open>
  The bot keeps its state in module-level dictionaries (\<^verbatim>\<open>last_edited\<close>,
  \<^verbatim>\<open>last_text\<close>, \<^verbatim>\<open>pending_requests\<close>, \<^verbatim>\<open>cancel_events\<close>,
  \<^verbatim>\<open>active_jobs\<close>) and a queue (\<^verbatim>\<open>jobs_q\<close>). Every function of the model
  takes that state as a record and returns it updated. The chat platform is external:
  the calls the bot issues are appended to \<open>calls\<close> in the order in which they are
  made, whether the platform accepts them or not. \<open>files\<close> are the names of the files
  in \<^verbatim>\<open>config.output_folder\<close>, in the order in which \<^verbatim>\<open>os.listdir\<close> lists them.

  The two edit tables are keyed by the string \<^verbatim>\<open>f"{chat_id}-{message_id}"\<close>.

  \<^verbatim>\<open>datetime.datetime.now()\<close> has microsecond resolution; a reading of that clock
  is an integer number of microseconds. \<^verbatim>\<open>(now - last).total_seconds() < 1.8\<close>
  divides the microsecond difference by \<open>10\<^sup>6\<close> with correct rounding and compares
  with the double nearest to 1.8, which is the double that 1800000 / \<open>10\<^sup>6\<close> rounds
  to: the test holds exactly when the difference is below 1800000 microseconds.
\<close>

datatype button = Button (label: string) (callback_data: string)

type_synonym markup = "button list option"

datatype bot_call =
    DeleteMessage int int
  | EditMessageText int int string markup
  | SendMessage int string "int option" markup
  | AnswerCallbackQuery string string

text \<open>
  A video plan is the dictionary that \<^verbatim>\<open>_best_progressive_mp4\<close>,
  \<^verbatim>\<open>_best_separate_mp4_m4a\<close> or the fallback of
  \<^verbatim>\<open>_build_video_plan_no_squeeze\<close> builds; \<open>estimated_size\<close> is \<open>None\<close> when
  the value is not an \<^verbatim>\<open>int\<close>. An audio plan is the dictionary of
  \<^verbatim>\<open>_build_audio_plan_mp3\<close>.
\<close>

datatype plan_kind = Progressive | Separate | Unknown

record plan =
  kind :: plan_kind
  format_spec :: string
  merge_output_format :: "string option"
  estimated_size :: "int option"
  estimated_confident :: bool
  probe_urls :: "string list"
  quality_label :: string

record audio_plan =
  a_format_spec :: string
  a_merge_output_format :: "string option"
  mp3_kbps :: int
  a_estimated_size :: int
  a_estimated_confident :: bool
  a_quality_label :: string

text \<open>
  A reading of \<^verbatim>\<open>time.time()\<close> is a number of seconds; the difference of two
  readings is taken exactly (two doubles of the size of an epoch time differ by a
  representable amount).
\<close>

record pending =
  p_created_at :: real
  p_user_id :: int
  p_chat_id :: int
  p_reply_to_message_id :: int
  p_url :: string
  p_title :: string
  p_video_plan :: "plan option"
  p_audio_plan :: "audio_plan option"

datatype delivery_plan = VideoPlan plan | AudioPlan audio_plan

record job =
  j_job_id :: string
  j_chat_id :: int
  j_reply_to_message_id :: int
  j_status_message_id :: int
  j_url :: string
  j_title :: string
  j_mode :: string
  j_plan :: delivery_plan

record job_info =
  ji_user_id :: int
  ji_chat_id :: int
  ji_status_message_id :: int

record world =
  last_edited :: "string \<rightharpoonup> int"
  last_text :: "string \<rightharpoonup> string"
  pending_requests :: "string \<rightharpoonup> pending"
  jobs_q :: "job list"
  cancel_events :: "string \<rightharpoonup> bool"
  active_jobs :: "string \<rightharpoonup> job_info"
  calls :: "bot_call list"
  files :: "string list"

record callback =
  cb_id :: string
  cb_data :: string
  cb_from_user :: int
  cb_message_id :: int

record message =
  m_chat_id :: int
  m_from_user :: int
  m_message_id :: int

definition EDIT_INTERVAL_USEC :: int where
  "EDIT_INTERVAL_USEC = 1800000"

definition PENDING_TTL_SEC :: real where
  "PENDING_TTL_SEC = 10 * 60"

definition edit_key :: "int \<Rightarrow> int \<Rightarrow> string" where
  "edit_key chat_id message_id = str_int chat_id @ ''-'' @ str_int message_id"

definition safe_delete :: "int \<Rightarrow> int \<Rightarrow> world \<Rightarrow> world" where
  "safe_delete chat_id message_id w = w\<lparr>calls := calls w @ [DeleteMessage chat_id message_id]\<rparr>"

definition safe_answer_callback :: "string \<Rightarrow> string \<Rightarrow> world \<Rightarrow> world" where
  "safe_answer_callback call_id txt w = w\<lparr>calls := calls w @ [AnswerCallbackQuery call_id txt]\<rparr>"

definition safe_send_message :: "int \<Rightarrow> string \<Rightarrow> int option \<Rightarrow> markup \<Rightarrow> world \<Rightarrow> world" where
  "safe_send_message chat_id txt reply_to_message_id reply_markup w =
     w\<lparr>calls := calls w @ [SendMessage chat_id txt reply_to_message_id reply_markup]\<rparr>"

text \<open>
  \<^verbatim>\<open>_safe_edit\<close>. \<open>plat\<close> says whether the platform accepts a call (\<open>True\<close>) or
  the SDK raises (\<open>False\<close>); the two tables are written only after the call returned.
\<close>

definition safe_edit ::
  "(bot_call \<Rightarrow> bool) \<Rightarrow> int \<Rightarrow> int \<Rightarrow> int \<Rightarrow> string \<Rightarrow> markup \<Rightarrow> bool \<Rightarrow> world \<Rightarrow> world" where
  "safe_edit plat now chat_id message_id txt reply_markup force w =
     (let key = edit_key chat_id message_id in
      if \<not> force \<and>
         (case last_edited w key of
            Some t0 \<Rightarrow> now - t0 < EDIT_INTERVAL_USEC
          | None \<Rightarrow> False)
      then w
      else if \<not> force \<and> last_text w key = Some txt then w
      else
        let c = EditMessageText chat_id message_id txt reply_markup;
            w1 = w\<lparr>calls := calls w @ [c]\<rparr>
        in if plat c
           then w1\<lparr>last_edited := (last_edited w1)(key \<mapsto> now),
                   last_text := (last_text w1)(key \<mapsto> txt)\<rparr>
           else w1)"

text \<open>\<^verbatim>\<open>str.split("|")\<close>: one part more than there are bars.\<close>

fun split_bar :: "string \<Rightarrow> string list" where
  "split_bar [] = [[]]"
| "split_bar (c # cs) =
     (if c = CHR ''|'' then [] # split_bar cs
      else (case split_bar cs of
              [] \<Rightarrow> [[c]]
            | p # ps \<Rightarrow> (c # p) # ps))"

definition cancel_markup :: "string \<Rightarrow> markup" where
  "cancel_markup job_id = Some [Button ''Cancel'' (''cnl|'' @ job_id)]"


text \<open>
  \<^verbatim>\<open>on_cancel\<close>. An entry of \<^verbatim>\<open>active_jobs\<close> is a non-empty dictionary and a
  \<^verbatim>\<open>threading.Event\<close> is always truthy, so \<^verbatim>\<open>if not job_info\<close> and
  \<^verbatim>\<open>if ev\<close> test presence. The flag of an event is the boolean stored for the job.
\<close>

definition on_cancel :: "callback \<Rightarrow> world \<Rightarrow> world" where
  "on_cancel call w =
     (let parts = split_bar (cb_data call) in
      if length parts \<noteq> 2 then safe_answer_callback (cb_id call) ''Invalid action'' w
      else
        let job_id = parts ! 1 in
        case active_jobs w job_id of
          None \<Rightarrow> safe_answer_callback (cb_id call) ''Nothing to cancel.'' w
        | Some job_info \<Rightarrow>
            if cb_from_user call \<noteq> ji_user_id job_info
            then safe_answer_callback (cb_id call) ''This is not your request.'' w
            else
              let w1 = (case cancel_events w job_id of
                          Some ev \<Rightarrow> w\<lparr>cancel_events := (cancel_events w)(job_id \<mapsto> True)\<rparr>
                        | None \<Rightarrow> w);
                  w2 = safe_delete (ji_chat_id job_info) (ji_status_message_id job_info) w1
              in safe_answer_callback (cb_id call) ''Cancelled.'' w2)"

section \<open>Worker: the end of a job\<close>




definition starts_with :: "string \<Rightarrow> string \<Rightarrow> bool" where
  "starts_with pre s = (take (length pre) s = pre)"


fun remove_prefixed :: "(string \<Rightarrow> bool) \<Rightarrow> string \<Rightarrow> string list \<Rightarrow> string list \<Rightarrow> string list" where
  "remove_prefixed removable tmp_id [] fs = fs"
| "remove_prefixed removable tmp_id (fn # listing) fs =
     (if starts_with tmp_id fn
      then (if fn \<in> set fs
            then (if removable fn then remove_prefixed removable tmp_id listing (removeAll fn fs)
                  else fs)
            else remove_prefixed removable tmp_id listing fs)
      else remove_prefixed removable tmp_id listing fs)"



section \<open>Pending Choice Store\<close>

text \<open>
  \<^verbatim>\<open>_cleanup_pending\<close>: every entry older than the time-to-live at the reading
  \<open>now\<close> of \<^verbatim>\<open>time.time()\<close> is popped.
\<close>

definition cleanup_pending :: "real \<Rightarrow> world \<Rightarrow> world" where
  "cleanup_pending now w =
     w\<lparr>pending_requests :=
         (\<lambda>rid. case pending_requests w rid of
                  None \<Rightarrow> None
                | Some d \<Rightarrow> if now - p_created_at d > PENDING_TTL_SEC then None else Some d)\<rparr>"

text \<open>
  \<^verbatim>\<open>_render_status\<close> at the stage \<^verbatim>\<open>"queued"\<close>. The hourglass is the three bytes
  of its UTF-8 encoding.
\<close>

definition render_status_queued :: "string \<Rightarrow> int option \<Rightarrow> string" where
  "render_status_queued title queued_pos =
     title @ nl @ nl @ ''Status: '' @ [CHR 0xE2, CHR 0x8F, CHR 0xB3] @ '' Queued'' @
     (case queued_pos of None \<Rightarrow> [] | Some n \<Rightarrow> '' (#'' @ str_int n @ '')'')"

text \<open>
  \<^verbatim>\<open>on_download_choice\<close>. \<open>now\<close> is the reading of \<^verbatim>\<open>datetime.now()\<close> inside
  \<^verbatim>\<open>_safe_edit\<close>, \<open>job_id\<close> the identifier drawn from \<^verbatim>\<open>uuid4\<close>. The entry is
  popped before the plan of the chosen mode is looked at. Any mode tag other than
  \<^verbatim>\<open>"audio"\<close> and \<^verbatim>\<open>"doc"\<close> is a video request.
\<close>

definition on_download_choice :: "(bot_call \<Rightarrow> bool) \<Rightarrow> int \<Rightarrow> string \<Rightarrow> callback \<Rightarrow> world \<Rightarrow> world" where
  "on_download_choice plat now job_id call w =
     (let parts = split_bar (cb_data call) in
      if length parts \<noteq> 3 then safe_answer_callback (cb_id call) ''Invalid action'' w
      else
        let mode = parts ! 1; rid = parts ! 2 in
        case pending_requests w rid of
          None \<Rightarrow> safe_answer_callback (cb_id call) ''Request expired. Send the link again.'' w
        | Some req \<Rightarrow>
            if cb_from_user call \<noteq> p_user_id req
            then safe_answer_callback (cb_id call) ''This is not your request.'' w
            else
              let w1 = w\<lparr>pending_requests := (pending_requests w)(rid := None)\<rparr>;
                  chosen =
                    (if mode = ''audio'' then
                       (case p_audio_plan req of
                          None \<Rightarrow> Inl ''Audio is not available.''
                        | Some ap \<Rightarrow> Inr (AudioPlan ap, ''audio''))
                     else if mode = ''doc'' then
                       (case p_video_plan req of
                          None \<Rightarrow> Inl ''Video is not available.''
                        | Some vp \<Rightarrow> Inr (VideoPlan vp, ''doc''))
                     else
                       (case p_video_plan req of
                          None \<Rightarrow> Inl ''Video is not available.''
                        | Some vp \<Rightarrow> Inr (VideoPlan vp, ''video'')))
              in case chosen of
                   Inl refusal \<Rightarrow> safe_answer_callback (cb_id call) refusal w1
                 | Inr (chosen_plan, job_mode) \<Rightarrow>
                     let w2 = safe_answer_callback (cb_id call) ''OK'' w1;
                         w3 = w2\<lparr>cancel_events := (cancel_events w2)(job_id \<mapsto> False),
                                 active_jobs := (active_jobs w2)(job_id \<mapsto>
                                   \<lparr>ji_user_id = p_user_id req, ji_chat_id = p_chat_id req,
                                    ji_status_message_id = cb_message_id call\<rparr>)\<rparr>;
                         queued_pos = int (length (jobs_q w3)) + 1;
                         w4 = safe_edit plat now (p_chat_id req) (cb_message_id call)
                                (render_status_queued (p_title req) (Some queued_pos))
                                (cancel_markup job_id) True w3
                     in w4\<lparr>jobs_q := jobs_q w4 @
                           [\<lparr>j_job_id = job_id, j_chat_id = p_chat_id req,
                             j_reply_to_message_id = p_reply_to_message_id req,
                             j_status_message_id = cb_message_id call,
                             j_url = p_url req, j_title = p_title req,
                             j_mode = job_mode, j_plan = chosen_plan\<rparr>]\<rparr>)"

section \<open>Metadata and the Audio Fitter\<close>

text \<open>
  The metadata is the dictionary of the resolution library. A numeric value is an
  \<^verbatim>\<open>int\<close> or a finite \<^verbatim>\<open>float\<close>; a field is \<open>None\<close> when the key is absent
  or holds \<^verbatim>\<open>None\<close>. The height of a format is an \<^verbatim>\<open>int\<close>, the codecs, the
  extension, the URL and the format id are strings.
\<close>

record format =
  format_id :: "string option"
  ext :: "string option"
  vcodec :: "string option"
  acodec :: "string option"
  height :: "int option"
  fps :: "pynum option"
  tbr :: "pynum option"
  abr :: "pynum option"
  filesize :: "pynum option"
  filesize_approx :: "pynum option"
  f_url :: "string option"

record meta =
  duration :: "pynum option"
  formats :: "format list"

definition duration_sec :: "meta \<Rightarrow> int option" where
  "duration_sec m =
     (case duration m of
        None \<Rightarrow> None
      | Some (PInt i) \<Rightarrow> if 0 < i then Some i else None
      | Some (PFloat r) \<Rightarrow> if 0 < r then Some (py_trunc r) else None)"








section \<open>Size Planner: selection\<close>

text \<open>
  \<^verbatim>\<open>x or 0\<close> on a numeric field, \<^verbatim>\<open>int(x)\<close> and \<^verbatim>\<open>float(x)\<close>. Only the
  conversion of an \<^verbatim>\<open>int\<close> to a float can raise.
\<close>

definition or_zero :: "pynum option \<Rightarrow> pynum" where
  "or_zero x =
     (case x of
        None \<Rightarrow> PInt 0
      | Some (PInt i) \<Rightarrow> PInt i
      | Some (PFloat r) \<Rightarrow> if r = 0 then PInt 0 else PFloat r)"

definition py_int :: "pynum \<Rightarrow> int" where
  "py_int x = (case x of PInt i \<Rightarrow> i | PFloat r \<Rightarrow> py_trunc r)"

definition py_float :: "pynum \<Rightarrow> error + rat" where
  "py_float x = (case x of PInt i \<Rightarrow> py_float_of_int i | PFloat r \<Rightarrow> Inr r)"

definition is_positive :: "pynum \<Rightarrow> bool" where
  "is_positive x = (case x of PInt i \<Rightarrow> 0 < i | PFloat r \<Rightarrow> 0 < r)"

text \<open>
  \<^verbatim>\<open>_format_size_bytes\<close>: a declared size, then an approximate one, each only if it
  is a positive \<^verbatim>\<open>int\<close>; else the estimate from the bitrate, not confident.
\<close>

definition bitrate_estimate :: "int \<Rightarrow> pynum \<Rightarrow> error + int" where
  "bitrate_estimate dur t =
     (case py_float t of
        Inl e \<Rightarrow> Inl e
      | Inr ft \<Rightarrow>
          (case fl_checked (ft * 1000) of
             Inl e \<Rightarrow> Inl e
           | Inr bits \<Rightarrow>
               (case fl_checked (bits / 8) of
                  Inl e \<Rightarrow> Inl e
                | Inr rate \<Rightarrow>
                    (case py_float_of_int dur of
                       Inl e \<Rightarrow> Inl e
                     | Inr fdur \<Rightarrow>
                         (case fl_checked (fdur * rate) of
                            Inl e \<Rightarrow> Inl e
                          | Inr est \<Rightarrow> Inr (py_trunc est))))))"

definition positive_int :: "pynum option \<Rightarrow> int option" where
  "positive_int x =
     (case x of
        Some (PInt i) \<Rightarrow> if 0 < i then Some i else None
      | _ \<Rightarrow> None)"

definition format_size_bytes :: "format \<Rightarrow> int option \<Rightarrow> error + (int option \<times> bool)" where
  "format_size_bytes fmt dur =
     (case positive_int (filesize fmt) of
        Some fs \<Rightarrow> Inr (Some fs, True)
      | None \<Rightarrow>
          (case positive_int (filesize_approx fmt) of
             Some fsa \<Rightarrow> Inr (Some fsa, True)
           | None \<Rightarrow>
               (case dur of
                  None \<Rightarrow> Inr (None, False)
                | Some d \<Rightarrow>
                    if d = 0 then Inr (None, False)
                    else
                      (case tbr fmt of
                         None \<Rightarrow> Inr (None, False)
                       | Some t \<Rightarrow>
                           if is_positive t
                           then (case bitrate_estimate d t of
                                   Inl e \<Rightarrow> Inl e
                                 | Inr est \<Rightarrow>
                                     if 0 < est then Inr (Some est, False) else Inr (None, False))
                           else Inr (None, False)))))"

text \<open>The selection tuple \<^verbatim>\<open>(int(height), int(fps), float(tbr))\<close> and its order.\<close>

type_synonym vkey = "int \<times> int \<times> rat"

definition key_gt :: "vkey \<Rightarrow> vkey \<Rightarrow> bool" where
  "key_gt a b =
     (case a of (h1, f1, t1) \<Rightarrow>
        case b of (h2, f2, t2) \<Rightarrow>
          h2 < h1 \<or> (h1 = h2 \<and> (f2 < f1 \<or> (f1 = f2 \<and> t2 < t1))))"

definition height_or_zero :: "format \<Rightarrow> int" where
  "height_or_zero f = (case height f of None \<Rightarrow> 0 | Some h \<Rightarrow> h)"

definition video_key :: "format \<Rightarrow> error + vkey" where
  "video_key f =
     (case py_float (or_zero (tbr f)) of
        Inl e \<Rightarrow> Inl e
      | Inr t \<Rightarrow> Inr (height_or_zero f, py_int (or_zero (fps f)), t))"

definition audio_key :: "format \<Rightarrow> error + rat" where
  "audio_key f =
     py_float (case or_zero (abr f) of
                 PInt i \<Rightarrow> if i = 0 then or_zero (tbr f) else PInt i
               | PFloat r \<Rightarrow> PFloat r)"

definition str_opt :: "string option \<Rightarrow> string" where
  "str_opt x = (case x of None \<Rightarrow> ''None'' | Some s \<Rightarrow> s)"

definition height_label :: "format \<Rightarrow> string" where
  "height_label f = (if height_or_zero f = 0 then ''mp4'' else str_int (height_or_zero f) @ ''p'')"

definition url_list :: "format \<Rightarrow> string list" where
  "url_list f = (case f_url f of None \<Rightarrow> [] | Some u \<Rightarrow> if u = [] then [] else [u])"

definition progressive_plan :: "format \<Rightarrow> int option \<Rightarrow> bool \<Rightarrow> plan" where
  "progressive_plan f sz conf =
     \<lparr>kind = Progressive, format_spec = str_opt (format_id f), merge_output_format = None,
      estimated_size = sz, estimated_confident = conf, probe_urls = url_list f,
      quality_label = height_label f\<rparr>"

definition is_progressive :: "format \<Rightarrow> bool" where
  "is_progressive f = (ext f = Some ''mp4'' \<and> vcodec f \<noteq> Some ''none'' \<and> acodec f \<noteq> Some ''none'')"

text \<open>
  The loop of \<^verbatim>\<open>_best_progressive_mp4\<close>, with \<^verbatim>\<open>best\<close> and \<^verbatim>\<open>best_key\<close> as its
  state: a candidate replaces the best one only if its key is greater.
\<close>

fun progressive_loop ::
  "int option \<Rightarrow> format list \<Rightarrow> (plan \<times> vkey) option \<Rightarrow> error + (plan \<times> vkey) option" where
  "progressive_loop dur [] best = Inr best"
| "progressive_loop dur (f # fs) best =
     (if \<not> is_progressive f then progressive_loop dur fs best
      else
        case video_key f of
          Inl e \<Rightarrow> Inl e
        | Inr key \<Rightarrow>
            if (case best of None \<Rightarrow> True | Some (b, best_key) \<Rightarrow> key_gt key best_key)
            then (case format_size_bytes f dur of
                    Inl e \<Rightarrow> Inl e
                  | Inr (sz, conf) \<Rightarrow>
                      progressive_loop dur fs (Some (progressive_plan f sz conf, key)))
            else progressive_loop dur fs best)"

definition best_progressive_mp4 :: "meta \<Rightarrow> error + plan option" where
  "best_progressive_mp4 m =
     (case progressive_loop (duration_sec m) (formats m) None of
        Inl e \<Rightarrow> Inl e
      | Inr best \<Rightarrow> Inr (map_option fst best))"

text \<open>
  The loop of \<^verbatim>\<open>_best_separate_mp4_m4a\<close>: one pass, the best video-only format and
  the best audio-only format each with its size, its confidence and its key.
\<close>

definition is_video_only :: "format \<Rightarrow> bool" where
  "is_video_only f = (ext f = Some ''mp4'' \<and> vcodec f \<noteq> Some ''none'' \<and> acodec f = Some ''none'')"

definition is_audio_only :: "format \<Rightarrow> bool" where
  "is_audio_only f =
     (vcodec f = Some ''none'' \<and> acodec f \<noteq> Some ''none'' \<and> (ext f = Some ''m4a'' \<or> ext f = Some ''mp4''))"

type_synonym sized = "format \<times> int option \<times> bool"

fun separate_loop ::
  "int option \<Rightarrow> format list \<Rightarrow> (sized \<times> vkey) option \<Rightarrow> (sized \<times> rat) option
     \<Rightarrow> error + ((sized \<times> vkey) option \<times> (sized \<times> rat) option)" where
  "separate_loop dur [] best_v best_a = Inr (best_v, best_a)"
| "separate_loop dur (f # fs) best_v best_a =
     (case (if is_video_only f
            then (case video_key f of
                    Inl e \<Rightarrow> Inl e
                  | Inr key \<Rightarrow>
                      if (case best_v of None \<Rightarrow> True | Some (b, best_v_key) \<Rightarrow> key_gt key best_v_key)
                      then (case format_size_bytes f dur of
                              Inl e \<Rightarrow> Inl e
                            | Inr (sz, conf) \<Rightarrow> Inr (Some ((f, sz, conf), key)))
                      else Inr best_v)
            else Inr best_v) of
        Inl e \<Rightarrow> Inl e
      | Inr best_v' \<Rightarrow>
          (case (if is_audio_only f
                 then (case audio_key f of
                         Inl e \<Rightarrow> Inl e
                       | Inr key \<Rightarrow>
                           if (case best_a of None \<Rightarrow> True | Some (b, best_a_key) \<Rightarrow> best_a_key < key)
                           then (case format_size_bytes f dur of
                                   Inl e \<Rightarrow> Inl e
                                 | Inr (sz, conf) \<Rightarrow> Inr (Some ((f, sz, conf), key)))
                           else Inr best_a)
                 else Inr best_a) of
             Inl e \<Rightarrow> Inl e
           | Inr best_a' \<Rightarrow> separate_loop dur fs best_v' best_a'))"

definition separate_plan :: "sized \<Rightarrow> sized \<Rightarrow> plan" where
  "separate_plan v a =
     (case v of (vf, vsize, vconf) \<Rightarrow>
        case a of (af, asize, aconf) \<Rightarrow>
          \<lparr>kind = Separate,
           format_spec = str_opt (format_id vf) @ ''+'' @ str_opt (format_id af),
           merge_output_format = Some ''mp4'',
           estimated_size =
             (case vsize of
                None \<Rightarrow> None
              | Some sv \<Rightarrow> (case asize of None \<Rightarrow> None | Some sa \<Rightarrow> Some (sv + sa))),
           estimated_confident = (vsize \<noteq> None \<and> asize \<noteq> None \<and> vconf \<and> aconf),
           probe_urls = url_list vf @ url_list af,
           quality_label = height_label vf\<rparr>)"

definition best_separate_mp4_m4a :: "meta \<Rightarrow> error + plan option" where
  "best_separate_mp4_m4a m =
     (case separate_loop (duration_sec m) (formats m) None None of
        Inl e \<Rightarrow> Inl e
      | Inr (Some (v, vk), Some (a, ak)) \<Rightarrow> Inr (Some (separate_plan v a))
      | Inr _ \<Rightarrow> Inr None)"

definition unknown_plan :: plan where
  "unknown_plan =
     \<lparr>kind = Unknown, format_spec = ''best'', merge_output_format = None,
      estimated_size = None, estimated_confident = False, probe_urls = [],
      quality_label = ''best''\<rparr>"

definition build_video_plan_no_squeeze :: "meta \<Rightarrow> error + plan" where
  "build_video_plan_no_squeeze m =
     (case best_progressive_mp4 m of
        Inl e \<Rightarrow> Inl e
      | Inr (Some p) \<Rightarrow> Inr p
      | Inr None \<Rightarrow>
          (case best_separate_mp4_m4a m of
             Inl e \<Rightarrow> Inl e
           | Inr (Some p) \<Rightarrow> Inr p
           | Inr None \<Rightarrow> Inr unknown_plan))"

text \<open>
  The tie-break of the specification for a list of candidates with their keys: the
  chosen candidate is preceded only by candidates with a smaller key and followed only by
  candidates whose key is not greater, so that of several candidates with the greatest
  key the first is the chosen one.
\<close>

definition first_best :: "('k \<Rightarrow> 'k \<Rightarrow> bool) \<Rightarrow> ('c \<Rightarrow> 'k \<Rightarrow> bool) \<Rightarrow> 'c list \<Rightarrow> 'c \<Rightarrow> 'k \<Rightarrow> bool" where
  "first_best gt has_key cands c k =
     (\<exists>before after.
        cands = before @ c # after \<and> has_key c k \<and>
        (\<forall>x \<in> set before. \<exists>kx. has_key x kx \<and> gt k kx) \<and>
        (\<forall>x \<in> set after. \<exists>kx. has_key x kx \<and> \<not> gt kx k))"



section \<open>Progress Tracker\<close>

text \<open>
  A progress signal is the dictionary yt-dlp passes to the hook; the calculator reads
  five of its keys and uses a value only if it is an \<^verbatim>\<open>int\<close>, so a field is \<open>None\<close>
  when the key is absent or holds anything else. The per-job state is the dictionary
  \<^verbatim>\<open>{"pct": 0}\<close> the worker creates: the value under \<^verbatim>\<open>"pct"\<close>, \<open>None\<close> if the
  key is absent.
\<close>

record signal =
  downloaded_bytes :: "int option"
  total_bytes :: "int option"
  fragment_count :: "int option"
  fragment_index :: "int option"
  total_bytes_estimate :: "int option"

type_synonym progress_state = "int option"

text \<open>\<^verbatim>\<open>int((a * 100) / b)\<close>: a true division of two \<^verbatim>\<open>int\<close>s, then truncation.\<close>

definition percent_of :: "int \<Rightarrow> int \<Rightarrow> error + int" where
  "percent_of a b =
     (case py_int_truediv (a * 100) b of
        Inl e \<Rightarrow> Inl e
      | Inr q \<Rightarrow> Inr (py_trunc q))"

text \<open>The lines each of the three branches ends with: the cap at 99 and the floor at the state.\<close>

definition settle :: "int \<Rightarrow> progress_state \<Rightarrow> int" where
  "settle pct0 state =
     (let pct = (if 100 \<le> pct0 then 99 else pct0);
          prev = (case state of None \<Rightarrow> 0 | Some p \<Rightarrow> p)
      in if pct < prev then prev else pct)"

definition fragment_signal :: "signal \<Rightarrow> (int \<times> int) option" where
  "fragment_signal d =
     (case fragment_count d of
        None \<Rightarrow> None
      | Some frag_count \<Rightarrow>
          if 0 < frag_count
          then (case fragment_index d of
                  None \<Rightarrow> None
                | Some frag_index \<Rightarrow> Some (frag_count, frag_index))
          else None)"

definition byte_signal :: "int option \<Rightarrow> int option \<Rightarrow> (int \<times> int) option" where
  "byte_signal tot downloaded =
     (case tot of
        None \<Rightarrow> None
      | Some t \<Rightarrow>
          if 0 < t
          then (case downloaded of
                  None \<Rightarrow> None
                | Some dl \<Rightarrow> if 0 \<le> dl then Some (dl, t) else None)
          else None)"

definition calc_download_progress ::
  "signal \<Rightarrow> progress_state
     \<Rightarrow> error + ((int option \<times> int option \<times> int option) \<times> progress_state)" where
  "calc_download_progress d state =
     (case fragment_signal d of
        Some (frag_count, frag_index) \<Rightarrow>
          (let idx = (if frag_index < 0 then 0 else frag_index);
               idx = (if frag_count < idx then frag_count else idx)
           in case percent_of idx frag_count of
                Inl e \<Rightarrow> Inl e
              | Inr pct \<Rightarrow> Inr ((Some (settle pct state), None, None), Some (settle pct state)))
      | None \<Rightarrow>
          (case byte_signal (total_bytes d) (downloaded_bytes d) of
             Some (downloaded, tot) \<Rightarrow>
               (case percent_of downloaded tot of
                  Inl e \<Rightarrow> Inl e
                | Inr pct \<Rightarrow>
                    Inr ((Some (settle pct state), Some downloaded, Some tot),
                         Some (settle pct state)))
           | None \<Rightarrow>
               (case byte_signal (total_bytes_estimate d) (downloaded_bytes d) of
                  Some (downloaded, total_est) \<Rightarrow>
                    (case percent_of downloaded total_est of
                       Inl e \<Rightarrow> Inl e
                     | Inr pct \<Rightarrow>
                         Inr ((Some (settle pct state), Some downloaded, Some total_est),
                              Some (settle pct state)))
                | None \<Rightarrow> Inr ((None, downloaded_bytes d, None), state))))"

text \<open>
  The calculator fed with the signals of one job, the state threaded through. A call
  that raises leaves the state as it was (the assignment to \<^verbatim>\<open>state["pct"]\<close> comes
  after the division) and reports nothing.
\<close>

fun feed_progress :: "progress_state \<Rightarrow> signal list \<Rightarrow> int list" where
  "feed_progress state [] = []"
| "feed_progress state (d # ds) =
     (case calc_download_progress d state of
        Inl e \<Rightarrow> feed_progress state ds
      | Inr ((pct, downloaded, tot), state') \<Rightarrow>
          (case pct of
             None \<Rightarrow> feed_progress state' ds
           | Some p \<Rightarrow> p # feed_progress state' ds))"

text \<open>
  The hook of the worker calls the calculator for a \<^verbatim>\<open>"downloading"\<close> signal of the
  job's own file and stores 100 in the state at a \<^verbatim>\<open>"finished"\<close> signal.
\<close>

datatype hook_event = Downloading signal | Finished

fun is_downloading :: "hook_event \<Rightarrow> bool" where
  "is_downloading (Downloading d) = True"
| "is_downloading Finished = False"

fun feed_hook :: "progress_state \<Rightarrow> hook_event list \<Rightarrow> int list" where
  "feed_hook state [] = []"
| "feed_hook state (Finished # evs) = feed_hook (Some 100) evs"
| "feed_hook state (Downloading d # evs) =
     (case calc_download_progress d state of
        Inl e \<Rightarrow> feed_hook state evs
      | Inr ((pct, downloaded, tot), state') \<Rightarrow>
          (case pct of
             None \<Rightarrow> feed_hook state' evs
           | Some p \<Rightarrow> p # feed_hook state' evs))"

section \<open>Size Planner: probing\<close>

text \<open>
  The network is external: \<open>net url\<close> is the response to the range request for
  \<open>url\<close>, with the two headers the code reads (looked up without regard to case), or
  \<open>None\<close> when the request raises. Header values are strings of Latin-1 characters, one
  \<open>char\<close> each. \<^verbatim>\<open>str.strip\<close> and \<^verbatim>\<open>\s\<close> take the same characters for white
  space; \<^verbatim>\<open>\d\<close> matches the ten ASCII digits in this range.
\<close>

record http_response =
  content_range :: "string option"
  content_length :: "string option"

type_synonym network = "string \<Rightarrow> http_response option"

definition is_space :: "char \<Rightarrow> bool" where
  "is_space c = (of_char c \<in> {9::nat, 10, 11, 12, 13, 28, 29, 30, 31, 32, 133, 160})"

definition is_digit :: "char \<Rightarrow> bool" where
  "is_digit c = (48 \<le> (of_char c :: nat) \<and> (of_char c :: nat) \<le> 57)"

definition strip :: "string \<Rightarrow> string" where
  "strip s = rev (dropWhile is_space (rev (dropWhile is_space s)))"

definition int_of_digits :: "string \<Rightarrow> int" where
  "int_of_digits ds = foldl (\<lambda>a c. 10 * a + (int (of_char c) - 48)) 0 ds"

text \<open>
  \<^verbatim>\<open>re.search(r"/(\d+)\s*$", cr.strip())\<close>: the stripped string ends in no white
  space, so a match is a slash followed by digits up to the end of the string; the group
  is the longest run of digits at the end, and the character before it is the slash.
\<close>

definition content_range_total :: "string \<Rightarrow> int option" where
  "content_range_total cr =
     (let t = rev (strip cr);
          ds = takeWhile is_digit t
      in if ds = [] then None
         else (case drop (length ds) t of
                 [] \<Rightarrow> None
               | c # before \<Rightarrow> if c = CHR ''/'' then Some (int_of_digits (rev ds)) else None))"

text \<open>
  \<^verbatim>\<open>_probe_url_size_bytes\<close>. A \<^verbatim>\<open>Content-Length\<close> that \<^verbatim>\<open>isdigit\<close> accepts but
  \<^verbatim>\<open>int\<close> rejects (a superscript digit) raises inside the \<^verbatim>\<open>try\<close> and gives
  \<open>None\<close> like one that \<^verbatim>\<open>isdigit\<close> rejects. The limit some Python versions put on
  the number of digits \<^verbatim>\<open>int\<close> converts is left out.
\<close>

definition probe_url_size_bytes :: "network \<Rightarrow> string \<Rightarrow> int option" where
  "probe_url_size_bytes net url =
     (if url = [] then None
      else
        case net url of
          None \<Rightarrow> None
        | Some resp \<Rightarrow>
            (case (case content_range resp of
                     None \<Rightarrow> None
                   | Some cr \<Rightarrow>
                       if cr = [] then None
                       else (case content_range_total cr of
                               None \<Rightarrow> None
                             | Some tot \<Rightarrow> if 0 < tot then Some tot else None)) of
               Some tot \<Rightarrow> Some tot
             | None \<Rightarrow>
                 (case content_length resp of
                    None \<Rightarrow> None
                  | Some cl \<Rightarrow>
                      if cl \<noteq> [] \<and> list_all is_digit cl \<and> 1024 * 1024 < int_of_digits cl
                      then Some (int_of_digits cl)
                      else None)))"

text \<open>
  \<^verbatim>\<open>_apply_probe_if_needed\<close> assigns to keys of the dictionary it is given and
  returns that dictionary. A plan is therefore an object in a store: a function from
  addresses to plans. The loop stops at the first probe that gives no positive
  \<^verbatim>\<open>int\<close>. Beside the sizes, the loop yields the URLs it has sent a request
  to, in order; the result of the function carries the store, the object returned and
  those URLs.
\<close>

type_synonym addr = nat

type_synonym heap = "addr \<Rightarrow> plan"

record probe_outcome =
  heap_after :: heap
  returned :: addr
  requested :: "string list"

fun probe_sizes :: "(string \<Rightarrow> int option) \<Rightarrow> string list \<Rightarrow> int list option \<times> string list" where
  "probe_sizes probe [] = (Some [], [])"
| "probe_sizes probe (u # us) =
     (case probe u of
        None \<Rightarrow> (None, [u])
      | Some sz \<Rightarrow>
          if sz \<le> 0 then (None, [u])
          else (case probe_sizes probe us of
                  (None, asked) \<Rightarrow> (None, u # asked)
                | (Some sizes, asked) \<Rightarrow> (Some (sz # sizes), u # asked)))"

definition http_urls :: "plan \<Rightarrow> string list" where
  "http_urls p = filter (\<lambda>u. take 4 u = ''http'') (probe_urls p)"

definition apply_probe_if_needed :: "network \<Rightarrow> heap \<Rightarrow> addr \<Rightarrow> probe_outcome" where
  "apply_probe_if_needed net h plan =
     (if estimated_confident (h plan) \<and> estimated_size (h plan) \<noteq> None
      then \<lparr>heap_after = h, returned = plan, requested = []\<rparr>
      else
        let urls = http_urls (h plan) in
        if urls = [] then \<lparr>heap_after = h, returned = plan, requested = []\<rparr>
        else
          case probe_sizes (probe_url_size_bytes net) urls of
            (None, asked) \<Rightarrow> \<lparr>heap_after = h, returned = plan, requested = asked\<rparr>
          | (Some sizes, asked) \<Rightarrow>
              \<lparr>heap_after = h(plan := (h plan)\<lparr>estimated_size := Some (sum_list sizes),
                                                 estimated_confident := True\<rparr>),
               returned = plan, requested = asked\<rparr>)"

section \<open>Decision Gate\<close>

text \<open>
  \<^verbatim>\<open>_send_choice_ui\<close> from the point where the plans are resolved (the metadata
  is fetched, the title cleaned and the two plans built before). \<open>MAX_SEND_BYTES\<close> is
  the configured ceiling, \<open>now\<close> the reading of \<^verbatim>\<open>time.time()\<close> stored in the new
  entry, \<open>request_id\<close> the identifier drawn from \<^verbatim>\<open>uuid4\<close>. The result carries
  the exception that ends the function, if one does: \<^verbatim>\<open>_fmt_bytes\<close> raises on a
  number too large for a float, and in the last branch the entry is stored before the
  text is rendered.
\<close>

definition audio_button :: "string \<Rightarrow> button" where
  "audio_button request_id = Button ''Download as Audio (MP3)'' (''dl|audio|'' @ request_id)"

definition video_button :: "string \<Rightarrow> button" where
  "video_button request_id = Button ''Download as Video'' (''dl|video|'' @ request_id)"

definition doc_button :: "string \<Rightarrow> button" where
  "doc_button request_id = Button ''Download as Document'' (''dl|doc|'' @ request_id)"

definition new_pending ::
  "real \<Rightarrow> message \<Rightarrow> string \<Rightarrow> string \<Rightarrow> plan option \<Rightarrow> audio_plan option \<Rightarrow> pending" where
  "new_pending now msg url title vp ap =
     \<lparr>p_created_at = now, p_user_id = m_from_user msg, p_chat_id = m_chat_id msg,
      p_reply_to_message_id = m_message_id msg, p_url = url, p_title = title,
      p_video_plan = vp, p_audio_plan = ap\<rparr>"

text \<open>The tail that both refusing branches share: the audio button alone, or no button.\<close>

definition offer_audio_only ::
  "real \<Rightarrow> string \<Rightarrow> message \<Rightarrow> string \<Rightarrow> string \<Rightarrow> string \<Rightarrow> audio_plan option \<Rightarrow> string option
     \<Rightarrow> world \<Rightarrow> world" where
  "offer_audio_only now request_id msg url title txt audio_plan audio_reason w =
     (case audio_plan of
        Some ap \<Rightarrow>
          safe_send_message (m_chat_id msg)
            (txt @ nl @ ''Audio option available: '' @ a_quality_label ap)
            (Some (m_message_id msg)) (Some [audio_button request_id])
            (w\<lparr>pending_requests := (pending_requests w)(request_id \<mapsto>
                  new_pending now msg url title None (Some ap))\<rparr>)
      | None \<Rightarrow>
          safe_send_message (m_chat_id msg)
            (case audio_reason of
               None \<Rightarrow> txt
             | Some r \<Rightarrow> if r = [] then txt else txt @ nl @ ''Audio is not available: '' @ r)
            (Some (m_message_id msg)) None w)"

definition send_choice_ui ::
  "int \<Rightarrow> real \<Rightarrow> string \<Rightarrow> message \<Rightarrow> string \<Rightarrow> string \<Rightarrow> plan \<Rightarrow> audio_plan option \<Rightarrow> string option
     \<Rightarrow> world \<Rightarrow> error option \<times> world" where
  "send_choice_ui MAX_SEND_BYTES now request_id msg url title video_plan audio_plan audio_reason w =
     (let video_size = estimated_size video_plan;
          video_conf = (estimated_confident video_plan \<and>
                        (case video_size of None \<Rightarrow> False | Some s \<Rightarrow> 0 < s));
          video_ok = (video_conf \<and> (case video_size of None \<Rightarrow> False | Some s \<Rightarrow> s \<le> MAX_SEND_BYTES))
      in
      if video_conf \<and> (case video_size of None \<Rightarrow> False | Some s \<Rightarrow> MAX_SEND_BYTES < s) then
        (case fmt_bytes video_size of
           Inl e \<Rightarrow> (Some e, w)
         | Inr size_txt \<Rightarrow>
             (case fmt_bytes (Some MAX_SEND_BYTES) of
                Inl e \<Rightarrow> (Some e, w)
              | Inr limit_txt \<Rightarrow>
                  (None,
                   offer_audio_only now request_id msg url title
                     (title @ nl @ nl @ ''This video is too large for Telegram bots.'' @ nl @
                      ''Estimated size: '' @ size_txt @ nl @ ''Limit: '' @ limit_txt @ nl)
                     audio_plan audio_reason w)))
      else if \<not> video_ok then
        (case fmt_bytes (Some MAX_SEND_BYTES) of
           Inl e \<Rightarrow> (Some e, w)
         | Inr limit_txt \<Rightarrow>
             (None,
              offer_audio_only now request_id msg url title
                (title @ nl @ nl @
                 ''I can't reliably determine the final video size before downloading.'' @ nl @
                 ''Telegram bot upload limit is '' @ limit_txt @ ''.'' @ nl @
                 ''Please try a shorter video.'' @ nl)
                audio_plan audio_reason w))
      else
        let w1 = w\<lparr>pending_requests := (pending_requests w)(request_id \<mapsto>
                      new_pending now msg url title (Some video_plan) audio_plan)\<rparr>;
            kb = [video_button request_id, doc_button request_id] @
                 (case audio_plan of None \<Rightarrow> [] | Some ap \<Rightarrow> [audio_button request_id])
        in case fmt_bytes video_size of
             Inl e \<Rightarrow> (Some e, w1)
           | Inr size_txt \<Rightarrow>
               (case fmt_bytes (Some MAX_SEND_BYTES) of
                  Inl e \<Rightarrow> (Some e, w1)
                | Inr limit_txt \<Rightarrow>
                    (None,
                     safe_send_message (m_chat_id msg)
                       (title @ nl @ nl @ ''Choose download method:'' @ nl @
                        ''Estimated size: '' @ size_txt @ '' (limit '' @ limit_txt @ '')'' @ nl @
                        ''Selected: '' @ quality_label video_plan @
                        (case audio_plan of
                           None \<Rightarrow> []
                         | Some ap \<Rightarrow> nl @ ''Audio: '' @ a_quality_label ap))
                       (Some (m_message_id msg)) (Some kb) w1)))"

text \<open>
  The condition of the gate in the words of the specification: the size is confident,
  a positive integer, and not above the ceiling.
\<close>

definition proven_to_fit :: "int \<Rightarrow> plan \<Rightarrow> bool" where
  "proven_to_fit MAX_SEND_BYTES p =
     (estimated_confident p \<and>
      (case estimated_size p of None \<Rightarrow> False | Some s \<Rightarrow> 0 < s \<and> s \<le> MAX_SEND_BYTES))"


text \<open>
  What the gate protects: a stored video plan, and the plan of a queued video or
  document job, is proven to fit.
\<close>

definition pending_safe :: "int \<Rightarrow> world \<Rightarrow> bool" where
  "pending_safe MAX_SEND_BYTES w =
     (\<forall>rid e p. pending_requests w rid = Some e \<and> p_video_plan e = Some p
        \<longrightarrow> proven_to_fit MAX_SEND_BYTES p)"

definition queue_safe :: "int \<Rightarrow> world \<Rightarrow> bool" where
  "queue_safe MAX_SEND_BYTES w =
     (\<forall>j \<in> set (jobs_q w). j_mode j \<noteq> ''audio''
        \<longrightarrow> (\<exists>p. j_plan j = VideoPlan p \<and> proven_to_fit MAX_SEND_BYTES p))"

section \<open>Example states\<close>


definition w_job :: world where
  "w_job = \<lparr>last_edited = Map.empty, last_text = Map.empty,
            pending_requests = Map.empty, jobs_q = [],
            cancel_events = [''j1'' \<mapsto> False],
            active_jobs = [''j1'' \<mapsto> \<lparr>ji_user_id = 42, ji_chat_id = 7, ji_status_message_id = 9\<rparr>],
            calls = [], files = []\<rparr>"

definition cancel_call :: "int \<Rightarrow> string \<Rightarrow> callback" where
  "cancel_call user job_id =
     \<lparr>cb_id = ''q'', cb_data = ''cnl|'' @ job_id, cb_from_user = user, cb_message_id = 9\<rparr>"

definition w_empty :: world where
  "w_empty = \<lparr>last_edited = Map.empty, last_text = Map.empty,
              pending_requests = Map.empty, jobs_q = [],
              cancel_events = Map.empty, active_jobs = Map.empty, calls = [], files = []\<rparr>"

definition msg0 :: message where
  "msg0 = \<lparr>m_chat_id = 7, m_from_user = 42, m_message_id = 8\<rparr>"

definition plan_small :: plan where
  "plan_small = \<lparr>kind = Progressive, format_spec = ''18'', merge_output_format = None,
                 estimated_size = Some 1000, estimated_confident = True,
                 probe_urls = [], quality_label = ''360p''\<rparr>"



definition plan_guess :: plan where
  "plan_guess = \<lparr>kind = Separate, format_spec = ''137+140'', merge_output_format = Some ''mp4'',
                 estimated_size = Some 777, estimated_confident = False,
                 probe_urls = [''http://v'', ''ftp://x'', ''https://a''], quality_label = ''1080p''\<rparr>"

definition net_ok :: network where
  "net_ok = (\<lambda>u. if u = ''http://v'' then Some \<lparr>content_range = Some ''bytes 0-0/1000'', content_length = Some ''1''\<rparr>
                  else if u = ''https://a'' then Some \<lparr>content_range = None, content_length = Some ''2000000''\<rparr>
                  else None)"

definition net_half :: network where
  "net_half = (\<lambda>u. if u = ''http://v'' then Some \<lparr>content_range = Some ''bytes 0-0/1000'', content_length = Some ''1''\<rparr>
                    else if u = ''https://a'' then Some \<lparr>content_range = None, content_length = Some ''1''\<rparr>
                    else None)"

definition heap0 :: heap where
  "heap0 = (\<lambda>a. plan_guess)"

definition frag_sig :: "int \<Rightarrow> int \<Rightarrow> signal" where
  "frag_sig i n = \<lparr>downloaded_bytes = None, total_bytes = None, fragment_count = Some n,
                   fragment_index = Some i, total_bytes_estimate = None\<rparr>"

definition byte_sig :: "int \<Rightarrow> int \<Rightarrow> signal" where
  "byte_sig dl t = \<lparr>downloaded_bytes = Some dl, total_bytes = Some t, fragment_count = None,
                    fragment_index = None, total_bytes_estimate = None\<rparr>"

definition signals0 :: "signal list" where
  "signals0 = [frag_sig 3 10, byte_sig 50 200, frag_sig 1 10, byte_sig 70 200, byte_sig 200 200,
               frag_sig 12 10]"









definition choice_call :: "int \<Rightarrow> string \<Rightarrow> string \<Rightarrow> callback" where
  "choice_call user mode rid =
     \<lparr>cb_id = ''q'', cb_data = ''dl|'' @ mode @ ''|'' @ rid, cb_from_user = user, cb_message_id = 9\<rparr>"

section \<open>Facts about Python numbers\<close>

lemma round_half_even_one [simp]: "round_half_even n 1 = n"
  by (simp add: round_half_even_def)

lemma bitlen_one [simp]: "bitlen 1 = 1"
  by (simp add: bitlen_alt_def)

lemma ilog2_quot_one: "0 < n \<Longrightarrow> ilog2_quot n 1 = bitlen n - 1"
proof -
  assume n: "0 < n"
  then have b: "1 \<le> bitlen n" by (simp add: bitlen_alt_def)
  from bitlen_bounds [OF n] have "2 ^ nat (bitlen n - 1) \<le> n" by simp
  with b show ?thesis by (simp add: ilog2_quot_def)
qed

lemma bitlen_le_53: "0 < n \<Longrightarrow> n < 2 ^ 53 \<Longrightarrow> bitlen n \<le> 53"
  by (simp add: bitlen_le_iff_power)

text \<open>An integer below \<open>2\<^sup>5\<^sup>3\<close> is a double: rounding leaves it as it is.\<close>

lemma fl_quot_small_int:
  assumes "0 < n" and "n < 2 ^ 53"
  shows "fl_quot n 1 = of_int n"
proof -
  have b1: "1 \<le> bitlen n" using assms(1) by (simp add: bitlen_alt_def)
  have b2: "bitlen n \<le> 53" using assms by (rule bitlen_le_53)
  define e where "e = bitlen n - 53"
  have e: "max (ilog2_quot n 1 - 52) (- 1074) = e"
    using b1 b2 by (simp add: ilog2_quot_one [OF assms(1)] e_def)
  show ?thesis
  proof (cases "e = 0")
    case True
    then show ?thesis using assms(1) e by (simp add: fl_quot_def Let_def)
  next
    case False
    then have neg: "e < 0" using b2 by (simp add: e_def)
    have "Fract (n * 2 ^ nat (- e)) (2 ^ nat (- e)) = of_int n"
      by (simp add: Fract_of_int_quotient)
    then show ?thesis using assms(1) e neg by (simp add: fl_quot_def Let_def)
  qed
qed

lemma fl_small_int:
  assumes "0 \<le> n" and "n < 2 ^ 53"
  shows "fl (of_int n) = of_int n"
proof (cases "n = 0")
  case True
  then show ?thesis by (simp add: fl_def fl_quot_def)
next
  case False
  then have "0 < n" using assms(1) by simp
  then show ?thesis using assms(2) by (simp add: fl_def fl_quot_small_int)
qed

lemma py_float_of_int_small:
  assumes "0 \<le> n" and "n < 2 ^ 53"
  shows "py_float_of_int n = Inr (of_int n)"
proof -
  have "n < 2 ^ 1024" using assms(2) by simp
  then have "(of_int n :: rat) < of_int (2 ^ 1024)" by (simp only: of_int_less_iff)
  then have "\<not> of_int (2 ^ 1024) \<le> \<bar>of_int n :: rat\<bar>" using assms(1) by simp
  then show ?thesis
    by (simp add: py_float_of_int_def fl_checked_def fl_small_int [OF assms] Let_def)
qed

lemma fmt_bytes_small:
  assumes "k < 2 ^ 53"
  shows "\<exists>s. fmt_bytes (Some k) = Inr s"
proof (cases "k < 0")
  case True
  then show ?thesis by (simp add: fmt_bytes_def)
next
  case False
  then have "py_float_of_int k = Inr (of_int k)" using assms by (simp add: py_float_of_int_small)
  then show ?thesis using False by (simp add: fmt_bytes_def split: prod.splits)
qed

section \<open>Status Reporter\<close>



section \<open>Cancellation Registry\<close>

text \<open>
  C10. A cancel callback naming a job whose recorded owner is not the sender, or a job
  with no entry in \<^verbatim>\<open>active_jobs\<close>, is only answered (with a rejection): no
  cancellation flag changes, no status message is deleted, the state is otherwise
  untouched.
\<close>

theorem on_cancel_rejected:
  assumes "split_bar (cb_data call) = [tag, job_id]"
    and "active_jobs w job_id = None \<or>
         (\<exists>ji. active_jobs w job_id = Some ji \<and> cb_from_user call \<noteq> ji_user_id ji)"
  shows "on_cancel call w =
           w\<lparr>calls := calls w @
              [AnswerCallbackQuery (cb_id call)
                 (if active_jobs w job_id = None then ''Nothing to cancel.''
                  else ''This is not your request.'')]\<rparr>"
  using assms by (auto simp: on_cancel_def safe_answer_callback_def Let_def)

theorem on_cancel_rejected_witness:
  "on_cancel (cancel_call 43 ''j1'') w_job =
     w_job\<lparr>calls := [AnswerCallbackQuery ''q'' ''This is not your request.'']\<rparr> \<and>
   on_cancel (cancel_call 42 ''j2'') w_job =
     w_job\<lparr>calls := [AnswerCallbackQuery ''q'' ''Nothing to cancel.'']\<rparr> \<and>
   cancel_events (on_cancel (cancel_call 42 ''j1'') w_job) ''j1'' = Some True"
proof -
  have a: "on_cancel (cancel_call 43 ''j1'') w_job =
     w_job\<lparr>calls := [AnswerCallbackQuery ''q'' ''This is not your request.'']\<rparr>"
    using on_cancel_rejected [of "cancel_call 43 ''j1''" "''cnl''" "''j1''" w_job]
    by (simp add: cancel_call_def w_job_def)
  have b: "on_cancel (cancel_call 42 ''j2'') w_job =
     w_job\<lparr>calls := [AnswerCallbackQuery ''q'' ''Nothing to cancel.'']\<rparr>"
    using on_cancel_rejected [of "cancel_call 42 ''j2''" "''cnl''" "''j2''" w_job]
    by (simp add: cancel_call_def w_job_def)
  have c: "cancel_events (on_cancel (cancel_call 42 ''j1'') w_job) ''j1'' = Some True"
    by (simp add: on_cancel_def cancel_call_def w_job_def safe_delete_def
        safe_answer_callback_def Let_def)
  from a b c show ?thesis by simp
qed

section \<open>Pending Choice Store: expiry\<close>





section \<open>Decision Gate: what is offered\<close>

lemma offer_audio_only_calls:
  "calls (offer_audio_only now rid msg url title txt ap ar w) =
     calls w @ [SendMessage (m_chat_id msg)
        (case ap of
           Some a \<Rightarrow> txt @ nl @ ''Audio option available: '' @ a_quality_label a
         | None \<Rightarrow> (case ar of None \<Rightarrow> txt
                     | Some r \<Rightarrow> if r = [] then txt else txt @ nl @ ''Audio is not available: '' @ r))
        (Some (m_message_id msg))
        (case ap of None \<Rightarrow> None | Some a \<Rightarrow> Some [audio_button rid])]"
  by (simp add: offer_audio_only_def safe_send_message_def split: option.splits)

lemma offer_audio_only_pending:
  "pending_requests (offer_audio_only now rid msg url title txt ap ar w) =
     (case ap of None \<Rightarrow> pending_requests w
      | Some a \<Rightarrow> (pending_requests w)(rid \<mapsto> new_pending now msg url title None (Some a)))"
  by (simp add: offer_audio_only_def safe_send_message_def split: option.splits)

lemma offer_audio_only_jobs:
  "jobs_q (offer_audio_only now rid msg url title txt ap ar w) = jobs_q w"
  by (simp add: offer_audio_only_def safe_send_message_def split: option.splits)

lemma send_choice_ui_calls:
  assumes "fst (send_choice_ui M now rid msg url title vp ap ar w) = None"
  shows "\<exists>txt. calls (snd (send_choice_ui M now rid msg url title vp ap ar w)) =
           calls w @ [SendMessage (m_chat_id msg) txt (Some (m_message_id msg))
             (if proven_to_fit M vp
              then Some ([video_button rid, doc_button rid] @
                         (case ap of None \<Rightarrow> [] | Some a \<Rightarrow> [audio_button rid]))
              else (case ap of None \<Rightarrow> None | Some a \<Rightarrow> Some [audio_button rid]))]"
  using assms
  by (auto simp: send_choice_ui_def proven_to_fit_def Let_def offer_audio_only_calls
      safe_send_message_def split: option.splits sum.splits if_splits)

lemma send_choice_ui_pending:
  assumes "fst (send_choice_ui M now rid msg url title vp ap ar w) = None"
  shows "pending_requests (snd (send_choice_ui M now rid msg url title vp ap ar w)) =
           (if proven_to_fit M vp
            then (pending_requests w)(rid \<mapsto> new_pending now msg url title (Some vp) ap)
            else (case ap of None \<Rightarrow> pending_requests w
                  | Some a \<Rightarrow> (pending_requests w)(rid \<mapsto> new_pending now msg url title None (Some a))))"
  using assms
  by (auto simp: send_choice_ui_def proven_to_fit_def Let_def offer_audio_only_pending
      safe_send_message_def split: option.splits sum.splits if_splits)

lemma send_choice_ui_jobs:
  "jobs_q (snd (send_choice_ui M now rid msg url title vp ap ar w)) = jobs_q w"
  by (auto simp: send_choice_ui_def Let_def offer_audio_only_jobs
      safe_send_message_def split: option.splits sum.splits if_splits)

text \<open>The gate returns normally when the sizes are below \<open>2\<^sup>5\<^sup>3\<close> bytes.\<close>

lemma send_choice_ui_returns:
  assumes "M < 2 ^ 53" and "case estimated_size vp of None \<Rightarrow> True | Some s \<Rightarrow> s < 2 ^ 53"
  shows "fst (send_choice_ui M now rid msg url title vp ap ar w) = None"
proof -
  obtain lt where lt: "fmt_bytes (Some M) = Inr lt"
    using fmt_bytes_small [OF assms(1)] by blast
  obtain st where st: "fmt_bytes (estimated_size vp) = Inr st"
  proof (cases "estimated_size vp")
    case None
    then show ?thesis using that by (simp add: fmt_bytes_def)
  next
    case (Some k)
    then show ?thesis using that fmt_bytes_small [of k] assms(2) by auto
  qed
  show ?thesis by (simp add: send_choice_ui_def Let_def lt st)
qed

text \<open>The stored plans stay proven to fit, whether the gate returns or raises.\<close>

lemma send_choice_ui_pending_safe:
  assumes "pending_safe M w"
  shows "pending_safe M (snd (send_choice_ui M now rid msg url title vp ap ar w))"
proof -
  let ?r = "send_choice_ui M now rid msg url title vp ap ar w"
  have "pending_requests (snd ?r) = pending_requests w \<or>
        (\<exists>a. pending_requests (snd ?r) =
           (pending_requests w)(rid \<mapsto> new_pending now msg url title None a)) \<or>
        (proven_to_fit M vp \<and> pending_requests (snd ?r) =
           (pending_requests w)(rid \<mapsto> new_pending now msg url title (Some vp) ap))"
    by (auto simp: send_choice_ui_def proven_to_fit_def Let_def
        offer_audio_only_pending safe_send_message_def split: option.splits sum.splits)
  then show ?thesis
    using assms unfolding pending_safe_def by (auto simp: new_pending_def split: if_splits)
qed

lemma cleanup_pending_safe:
  "pending_safe M w \<Longrightarrow> pending_safe M (cleanup_pending now w)"
  unfolding pending_safe_def cleanup_pending_def
  by (auto split: option.splits if_splits)

lemma cleanup_pending_queue_safe:
  "queue_safe M (cleanup_pending now w) = queue_safe M w"
  by (simp add: queue_safe_def cleanup_pending_def)

lemma safe_edit_pending [simp]:
  "pending_requests (safe_edit plat t c m txt mk force w) = pending_requests w"
  by (simp add: safe_edit_def Let_def)

lemma safe_edit_jobs [simp]:
  "jobs_q (safe_edit plat t c m txt mk force w) = jobs_q w"
  by (simp add: safe_edit_def Let_def)

text \<open>
  A selection enqueues a video or document job only with the video plan of the entry,
  and only removes from the store.
\<close>

lemma on_download_choice_safe:
  assumes "pending_safe M w" and "queue_safe M w"
  shows "pending_safe M (on_download_choice plat t job_id call w) \<and>
         queue_safe M (on_download_choice plat t job_id call w)"
proof -
  have p: "pending_safe M (on_download_choice plat t job_id call w)"
    using assms(1) unfolding pending_safe_def on_download_choice_def
    by (auto simp: safe_answer_callback_def Let_def split: option.splits sum.splits if_splits)
  have q: "queue_safe M (on_download_choice plat t job_id call w)"
    using assms unfolding pending_safe_def queue_safe_def on_download_choice_def
    by (auto simp: safe_answer_callback_def Let_def split: option.splits sum.splits if_splits)
  from p q show ?thesis by simp
qed

text \<open>
  C1. When the gate presents its message: the video and document buttons are offered,
  and the video plan stored, exactly when the plan's size is confident, positive and
  not above \<open>MAX_SEND_BYTES\<close>; otherwise the audio button alone is offered, and an entry
  with no video plan stored, exactly when an audio plan exists, and no button and no
  entry otherwise. The gate enqueues nothing, and every stored video plan stays proven to
  fit, so that a later selection can only enqueue a video or document job whose plan is
  proven to fit.
\<close>

theorem decision_gate:
  assumes "fst (send_choice_ui M now rid msg url title vp ap ar w) = None"
  shows "(\<exists>txt. calls (snd (send_choice_ui M now rid msg url title vp ap ar w)) =
            calls w @ [SendMessage (m_chat_id msg) txt (Some (m_message_id msg))
              (if proven_to_fit M vp
               then Some ([video_button rid, doc_button rid] @
                          (case ap of None \<Rightarrow> [] | Some a \<Rightarrow> [audio_button rid]))
               else (case ap of None \<Rightarrow> None | Some a \<Rightarrow> Some [audio_button rid]))]) \<and>
         pending_requests (snd (send_choice_ui M now rid msg url title vp ap ar w)) =
           (if proven_to_fit M vp
            then (pending_requests w)(rid \<mapsto> new_pending now msg url title (Some vp) ap)
            else (case ap of None \<Rightarrow> pending_requests w
                  | Some a \<Rightarrow> (pending_requests w)(rid \<mapsto> new_pending now msg url title None (Some a)))) \<and>
         jobs_q (snd (send_choice_ui M now rid msg url title vp ap ar w)) = jobs_q w \<and>
         (pending_safe M w \<and> queue_safe M w \<longrightarrow>
            (\<forall>plat t job_id call.
               pending_safe M (on_download_choice plat t job_id call
                 (snd (send_choice_ui M now rid msg url title vp ap ar w))) \<and>
               queue_safe M (on_download_choice plat t job_id call
                 (snd (send_choice_ui M now rid msg url title vp ap ar w)))))"
proof -
  let ?w' = "snd (send_choice_ui M now rid msg url title vp ap ar w)"
  have safe: "pending_safe M w \<and> queue_safe M w \<longrightarrow>
            (\<forall>plat t job_id call.
               pending_safe M (on_download_choice plat t job_id call ?w') \<and>
               queue_safe M (on_download_choice plat t job_id call ?w'))"
  proof (intro impI allI)
    fix plat t job_id call
    assume a: "pending_safe M w \<and> queue_safe M w"
    then have "pending_safe M ?w'" by (simp add: send_choice_ui_pending_safe)
    moreover have "queue_safe M ?w'" using a by (simp add: queue_safe_def send_choice_ui_jobs)
    ultimately show "pending_safe M (on_download_choice plat t job_id call ?w') \<and>
               queue_safe M (on_download_choice plat t job_id call ?w')"
      by (rule on_download_choice_safe)
  qed
  show ?thesis
    using send_choice_ui_calls [OF assms] send_choice_ui_pending [OF assms]
      send_choice_ui_jobs [of M now rid msg url title vp ap ar w] safe
    by blast
qed

theorem decision_gate_witness:
  "fst (send_choice_ui 50000000 0 ''r1'' msg0 ''http://x'' ''T'' plan_small None None w_empty) = None \<and>
   pending_requests
     (snd (send_choice_ui 50000000 0 ''r1'' msg0 ''http://x'' ''T'' plan_small None None w_empty)) ''r1'' =
     Some (new_pending 0 msg0 ''http://x'' ''T'' (Some plan_small) None) \<and>
   fst (send_choice_ui 500 0 ''r1'' msg0 ''http://x'' ''T'' plan_small None None w_empty) = None \<and>
   pending_requests
     (snd (send_choice_ui 500 0 ''r1'' msg0 ''http://x'' ''T'' plan_small None None w_empty)) ''r1'' =
     None \<and>
   pending_safe 500 w_empty \<and> queue_safe 500 w_empty \<and>
   queue_safe 500 (on_download_choice (\<lambda>c. True) 0 ''j1'' (choice_call 42 ''video'' ''r1'')
     (snd (send_choice_ui 500 0 ''r1'' msg0 ''http://x'' ''T'' plan_small None None w_empty)))"
proof -
  have h1: "fst (send_choice_ui 50000000 0 ''r1'' msg0 ''http://x'' ''T'' plan_small None None w_empty) = None"
    by (rule send_choice_ui_returns) (simp_all add: plan_small_def)
  have h2: "fst (send_choice_ui 500 0 ''r1'' msg0 ''http://x'' ''T'' plan_small None None w_empty) = None"
    by (rule send_choice_ui_returns) (simp_all add: plan_small_def)
  have s: "pending_safe 500 w_empty \<and> queue_safe 500 w_empty"
    by (simp add: pending_safe_def queue_safe_def w_empty_def)
  show ?thesis
    using h1 h2 s decision_gate [OF h1] decision_gate [OF h2]
    by (simp add: proven_to_fit_def plan_small_def w_empty_def)
qed

section \<open>Size Planner: probing results\<close>

lemma probe_url_size_bytes_pos: "probe_url_size_bytes net u = Some n \<Longrightarrow> 0 < n"
  by (auto simp: probe_url_size_bytes_def split: option.splits if_splits)

lemma probe_sizes_all:
  "map probe us = map Some sizes \<Longrightarrow> \<forall>n \<in> set sizes. 0 < n
     \<Longrightarrow> probe_sizes probe us = (Some sizes, us)"
proof (induction us arbitrary: sizes)
  case Nil
  then show ?case by simp
next
  case (Cons u us)
  then obtain n ns where s: "sizes = n # ns" by (cases sizes) auto
  with Cons.prems have "probe u = Some n" "map probe us = map Some ns" "0 < n" "\<forall>n \<in> set ns. 0 < n"
    by auto
  with Cons.IH [of ns] s show ?case by simp
qed

lemma probe_sizes_fail:
  "u \<in> set us \<Longrightarrow> probe u = None \<Longrightarrow> fst (probe_sizes probe us) = None"
  by (induction us) (auto split: option.splits prod.splits)

lemma probe_sizes_asked:
  assumes "\<And>u n. probe u = Some n \<Longrightarrow> 0 < n"
  shows "snd (probe_sizes probe us) =
           take (Suc (length (takeWhile (\<lambda>u. probe u \<noteq> None) us))) us"
proof (induction us)
  case Nil
  then show ?case by simp
next
  case (Cons u us)
  show ?case
  proof (cases "probe u")
    case None
    then show ?thesis by simp
  next
    case (Some n)
    then have "0 < n" by (rule assms)
    with Some Cons.IH show ?thesis
      by (cases "probe_sizes probe us") (auto split: option.splits)
  qed
qed

lemma probed_positive:
  assumes "map (probe_url_size_bytes net) us = map Some sizes"
  shows "\<forall>n \<in> set sizes. 0 < n"
proof
  fix n assume "n \<in> set sizes"
  then have "Some n \<in> set (map (probe_url_size_bytes net) us)" using assms by simp
  then obtain u where "probe_url_size_bytes net u = Some n" by auto
  then show "0 < n" by (rule probe_url_size_bytes_pos)
qed

lemma probe_sizes_stops:
  assumes "u \<in> set us" and "probe_url_size_bytes net u = None"
  shows "probe_sizes (probe_url_size_bytes net) us =
           (None, take (Suc (length (takeWhile (\<lambda>u. probe_url_size_bytes net u \<noteq> None) us))) us)"
proof -
  have "fst (probe_sizes (probe_url_size_bytes net) us) = None"
    using assms by (rule probe_sizes_fail)
  moreover have "snd (probe_sizes (probe_url_size_bytes net) us) =
           take (Suc (length (takeWhile (\<lambda>u. probe_url_size_bytes net u \<noteq> None) us))) us"
    by (rule probe_sizes_asked) (rule probe_url_size_bytes_pos)
  ultimately show ?thesis by (simp add: prod_eq_iff)
qed

text \<open>
  C6. A plan that is confident with an integer size is returned as it is, and no request
  is sent. For any other plan: when it exposes at least one URL starting with
  \<^verbatim>\<open>http\<close> and every probe of those URLs returns a total, the size becomes the sum of
  the totals and the plan confident, after one request to each URL; when it exposes no
  such URL the plan is returned unchanged and no request is sent; when one probe gives
  nothing the plan is returned unchanged, and the requests sent are those to the URLs up
  to the first one whose probe gives nothing.
\<close>

theorem apply_probe_if_needed_result:
  "(estimated_confident (h a) \<and> estimated_size (h a) \<noteq> None
      \<longrightarrow> apply_probe_if_needed net h a = \<lparr>heap_after = h, returned = a, requested = []\<rparr>) \<and>
   (\<not> (estimated_confident (h a) \<and> estimated_size (h a) \<noteq> None) \<and> http_urls (h a) \<noteq> [] \<and>
    map (probe_url_size_bytes net) (http_urls (h a)) = map Some sizes
      \<longrightarrow> apply_probe_if_needed net h a =
            \<lparr>heap_after = h(a := (h a)\<lparr>estimated_size := Some (sum_list sizes),
                                          estimated_confident := True\<rparr>),
             returned = a, requested = http_urls (h a)\<rparr>) \<and>
   (\<not> (estimated_confident (h a) \<and> estimated_size (h a) \<noteq> None) \<and> http_urls (h a) = []
      \<longrightarrow> apply_probe_if_needed net h a = \<lparr>heap_after = h, returned = a, requested = []\<rparr>) \<and>
   (\<not> (estimated_confident (h a) \<and> estimated_size (h a) \<noteq> None) \<and>
    (\<exists>u \<in> set (http_urls (h a)). probe_url_size_bytes net u = None)
      \<longrightarrow> apply_probe_if_needed net h a =
            \<lparr>heap_after = h, returned = a,
             requested = take (Suc (length (takeWhile (\<lambda>u. probe_url_size_bytes net u \<noteq> None)
                                              (http_urls (h a))))) (http_urls (h a))\<rparr>)"
proof (intro conjI impI)
  assume "estimated_confident (h a) \<and> estimated_size (h a) \<noteq> None"
  then show "apply_probe_if_needed net h a = \<lparr>heap_after = h, returned = a, requested = []\<rparr>"
    by (simp add: apply_probe_if_needed_def)
next
  assume a: "\<not> (estimated_confident (h a) \<and> estimated_size (h a) \<noteq> None) \<and> http_urls (h a) \<noteq> [] \<and>
    map (probe_url_size_bytes net) (http_urls (h a)) = map Some sizes"
  then have "probe_sizes (probe_url_size_bytes net) (http_urls (h a)) = (Some sizes, http_urls (h a))"
    using probe_sizes_all probed_positive by blast
  with a show "apply_probe_if_needed net h a =
            \<lparr>heap_after = h(a := (h a)\<lparr>estimated_size := Some (sum_list sizes),
                                          estimated_confident := True\<rparr>),
             returned = a, requested = http_urls (h a)\<rparr>"
    by (auto simp: apply_probe_if_needed_def Let_def)
next
  assume "\<not> (estimated_confident (h a) \<and> estimated_size (h a) \<noteq> None) \<and> http_urls (h a) = []"
  then show "apply_probe_if_needed net h a = \<lparr>heap_after = h, returned = a, requested = []\<rparr>"
    by (auto simp: apply_probe_if_needed_def Let_def)
next
  assume a: "\<not> (estimated_confident (h a) \<and> estimated_size (h a) \<noteq> None) \<and>
    (\<exists>u \<in> set (http_urls (h a)). probe_url_size_bytes net u = None)"
  then obtain u where u: "u \<in> set (http_urls (h a))" "probe_url_size_bytes net u = None" by blast
  then have ne: "http_urls (h a) \<noteq> []" by auto
  from u have "probe_sizes (probe_url_size_bytes net) (http_urls (h a)) =
      (None, take (Suc (length (takeWhile (\<lambda>u. probe_url_size_bytes net u \<noteq> None)
                                  (http_urls (h a))))) (http_urls (h a)))"
    by (rule probe_sizes_stops)
  with a ne show "apply_probe_if_needed net h a =
            \<lparr>heap_after = h, returned = a,
             requested = take (Suc (length (takeWhile (\<lambda>u. probe_url_size_bytes net u \<noteq> None)
                                              (http_urls (h a))))) (http_urls (h a))\<rparr>"
    by (auto simp: apply_probe_if_needed_def Let_def)
qed

lemma http_urls_guess: "http_urls plan_guess = [''http://v'', ''https://a'']"
  by (simp add: http_urls_def plan_guess_def)

lemma probe_v: "probe_url_size_bytes net_ok ''http://v'' = Some 1000"
  by code_simp

lemma probe_a: "probe_url_size_bytes net_ok ''https://a'' = Some 2000000"
  by code_simp

lemma probe_a_lost: "probe_url_size_bytes net_half ''https://a'' = None"
  by code_simp

lemma probe_v_half: "probe_url_size_bytes net_half ''http://v'' = Some 1000"
  by code_simp

theorem apply_probe_if_needed_result_witness:
  "apply_probe_if_needed net_ok heap0 0 =
     \<lparr>heap_after = heap0(0 := plan_guess\<lparr>estimated_size := Some 2001000, estimated_confident := True\<rparr>),
      returned = 0, requested = [''http://v'', ''https://a'']\<rparr> \<and>
   apply_probe_if_needed (\<lambda>u. None) heap0 0 =
     \<lparr>heap_after = heap0, returned = 0, requested = [''http://v'']\<rparr> \<and>
   apply_probe_if_needed net_half heap0 0 =
     \<lparr>heap_after = heap0, returned = 0, requested = [''http://v'', ''https://a'']\<rparr> \<and>
   apply_probe_if_needed net_ok (\<lambda>a. unknown_plan) 0 =
     \<lparr>heap_after = (\<lambda>a. unknown_plan), returned = 0, requested = []\<rparr> \<and>
   apply_probe_if_needed net_ok (\<lambda>a. plan_small) 0 =
     \<lparr>heap_after = (\<lambda>a. plan_small), returned = 0, requested = []\<rparr>"
proof -
  have c: "\<not> (estimated_confident (heap0 0) \<and> estimated_size (heap0 0) \<noteq> None)"
    by (simp add: heap0_def plan_guess_def)
  have u: "http_urls (heap0 0) = [''http://v'', ''https://a'']"
    by (simp add: heap0_def http_urls_guess)
  have m: "map (probe_url_size_bytes net_ok) (http_urls (heap0 0)) = map Some [1000, 2000000]"
    by (simp add: u probe_v probe_a)
  have n: "probe_url_size_bytes (\<lambda>u. None) ''http://v'' = None"
    by (simp add: probe_url_size_bytes_def)
  have 1: "apply_probe_if_needed net_ok heap0 0 =
     \<lparr>heap_after = heap0(0 := plan_guess\<lparr>estimated_size := Some 2001000, estimated_confident := True\<rparr>),
      returned = 0, requested = [''http://v'', ''https://a'']\<rparr>"
    using apply_probe_if_needed_result [of heap0 0 net_ok "[1000, 2000000]"] c m
    by (simp add: u) (simp add: heap0_def)
  have 2: "apply_probe_if_needed (\<lambda>u. None) heap0 0 =
     \<lparr>heap_after = heap0, returned = 0, requested = [''http://v'']\<rparr>"
    using apply_probe_if_needed_result [of heap0 0 "\<lambda>u. None" "[]"] c n
    by (simp add: u)
  have 3: "apply_probe_if_needed net_half heap0 0 =
     \<lparr>heap_after = heap0, returned = 0, requested = [''http://v'', ''https://a'']\<rparr>"
    using apply_probe_if_needed_result [of heap0 0 net_half "[]"] c
    by (simp add: u probe_a_lost probe_v_half)
  have 4: "apply_probe_if_needed net_ok (\<lambda>a. unknown_plan) 0 =
     \<lparr>heap_after = (\<lambda>a. unknown_plan), returned = 0, requested = []\<rparr>"
    using apply_probe_if_needed_result [of "\<lambda>a. unknown_plan" 0 net_ok "[]"]
    by (simp add: unknown_plan_def http_urls_def)
  have 5: "apply_probe_if_needed net_ok (\<lambda>a. plan_small) 0 =
     \<lparr>heap_after = (\<lambda>a. plan_small), returned = 0, requested = []\<rparr>"
    using apply_probe_if_needed_result [of "\<lambda>a. plan_small" 0 net_ok "[]"]
    by (simp add: plan_small_def)
  from 1 2 3 4 5 show ?thesis by simp
qed




section \<open>Progress Tracker: monotonicity\<close>

text \<open>A percentage that is a whole number is computed exactly.\<close>

lemma percent_of_exact:
  assumes "0 < b" and "a * 100 = q * b" and "0 \<le> q" and "q < 2 ^ 53"
  shows "percent_of a b = Inr q"
proof -
  have "Fract (a * 100) b = of_int q"
    using assms(1,2) by (simp add: Fract_of_int_quotient)
  then have "py_int_truediv (a * 100) b = Inr (of_int q)"
    using assms(1) py_float_of_int_small [OF assms(3,4)]
    by (simp add: py_int_truediv_def py_float_of_int_def)
  then show ?thesis using assms(3) by (simp add: percent_of_def py_trunc_def)
qed

lemma pcts:
  "percent_of 3 10 = Inr 30" "percent_of 50 200 = Inr 25" "percent_of 1 10 = Inr 10"
  "percent_of 70 200 = Inr 35" "percent_of 200 200 = Inr 100" "percent_of 10 10 = Inr 100"
  by (rule percent_of_exact; simp)+

lemma settle_bounds:
  "(case state of None \<Rightarrow> 0 | Some p \<Rightarrow> p) \<le> settle pct state \<and>
   ((case state of None \<Rightarrow> 0 | Some p \<Rightarrow> p) \<le> 99 \<longrightarrow> settle pct state \<le> 99)"
  by (auto simp: settle_def Let_def split: option.splits)

lemma calc_download_progress_step:
  assumes "calc_download_progress d state = Inr ((pct, downloaded, tot), state')"
  shows "(case pct of
            None \<Rightarrow> state' = state
          | Some p \<Rightarrow> \<exists>pct0. p = settle pct0 state \<and> state' = Some p)"
proof (cases "fragment_signal d")
  case (Some fs)
  obtain c i where fs: "fs = (c, i)" by (cases fs)
  show ?thesis
    using assms Some fs
    by (cases "percent_of (if c < (if i < 0 then 0 else i) then c else (if i < 0 then 0 else i)) c")
       (auto simp: calc_download_progress_def Let_def)
next
  case None
  note nofrag = None
  show ?thesis
  proof (cases "byte_signal (total_bytes d) (downloaded_bytes d)")
    case (Some bs)
    obtain dl t where bs: "bs = (dl, t)" by (cases bs)
    show ?thesis
      using assms nofrag Some bs
      by (cases "percent_of dl t") (auto simp: calc_download_progress_def)
  next
    case None
    note nobytes = None
    show ?thesis
    proof (cases "byte_signal (total_bytes_estimate d) (downloaded_bytes d)")
      case (Some bs)
      obtain dl t where bs: "bs = (dl, t)" by (cases bs)
      show ?thesis
        using assms nofrag nobytes Some bs
        by (cases "percent_of dl t") (auto simp: calc_download_progress_def)
    next
      case None
      then show ?thesis
        using assms nofrag nobytes by (auto simp: calc_download_progress_def)
    qed
  qed
qed



lemma feed_progress_Cons_Some:
  assumes "calc_download_progress d state = Inr ((Some p, downloaded, tot), state')"
  shows "feed_progress state (d # ds) = p # feed_progress state' ds"
  using assms by simp

lemma feed_progress_Cons_None:
  assumes "calc_download_progress d state = Inr ((None, downloaded, tot), state')"
  shows "feed_progress state (d # ds) = feed_progress state' ds"
  using assms by simp

lemma feed_progress_Cons_Inl:
  assumes "calc_download_progress d state = Inl e"
  shows "feed_progress state (d # ds) = feed_progress state ds"
  using assms by simp

lemma feed_progress_bounds:
  assumes "lo = (case state of None \<Rightarrow> 0 | Some p \<Rightarrow> p)" and "lo \<le> 99"
  shows "sorted (feed_progress state ds) \<and> (\<forall>p \<in> set (feed_progress state ds). lo \<le> p \<and> p \<le> 99)"
  using assms
proof (induction ds arbitrary: state lo)
  case Nil
  then show ?case by simp
next
  case (Cons d ds)
  show ?case
  proof (cases "calc_download_progress d state")
    case (Inl e)
    have "feed_progress state (d # ds) = feed_progress state ds"
      using Inl by (rule feed_progress_Cons_Inl)
    then show ?thesis using Cons.IH [OF Cons.prems] by simp
  next
    case (Inr r)
    obtain pct downloaded tot state' where r: "r = ((pct, downloaded, tot), state')"
      by (cases r) auto
    have c: "calc_download_progress d state = Inr ((pct, downloaded, tot), state')"
      using Inr r by simp
    note step = calc_download_progress_step [OF c]
    show ?thesis
    proof (cases pct)
      case None
      with step have "state' = state" by simp
      moreover have "feed_progress state (d # ds) = feed_progress state' ds"
        using c None feed_progress_Cons_None by blast
      ultimately show ?thesis using Cons.IH [OF Cons.prems] by simp
    next
      case (Some p)
      with step obtain pct0 where p: "p = settle pct0 state" and s: "state' = Some p" by auto
      have lo: "lo \<le> p" and hi: "p \<le> 99"
        using settle_bounds [of state pct0] Cons.prems p by auto
      have "p = (case state' of None \<Rightarrow> 0 | Some q \<Rightarrow> q)" using s by simp
      from Cons.IH [OF this hi]
      have ih: "sorted (feed_progress state' ds) \<and>
                (\<forall>q \<in> set (feed_progress state' ds). p \<le> q \<and> q \<le> 99)" .
      have "feed_progress state (d # ds) = p # feed_progress state' ds"
        using c Some feed_progress_Cons_Some by blast
      then show ?thesis using ih lo hi by auto
    qed
  qed
qed

lemma settle_upper: "settle pct state \<le> max 99 (case state of None \<Rightarrow> 0 | Some p \<Rightarrow> p)"
  by (auto simp: settle_def Let_def split: option.splits)

lemma feed_hook_Cons_Some:
  assumes "calc_download_progress d state = Inr ((Some p, downloaded, tot), state')"
  shows "feed_hook state (Downloading d # evs) = p # feed_hook state' evs"
  using assms by simp

lemma feed_hook_Cons_None:
  assumes "calc_download_progress d state = Inr ((None, downloaded, tot), state')"
  shows "feed_hook state (Downloading d # evs) = feed_hook state' evs"
  using assms by simp

lemma feed_hook_Cons_Inl:
  assumes "calc_download_progress d state = Inl e"
  shows "feed_hook state (Downloading d # evs) = feed_hook state evs"
  using assms by simp

lemma feed_hook_sorted:
  assumes "lo = (case state of None \<Rightarrow> 0 | Some p \<Rightarrow> p)" and "lo \<le> 100"
  shows "sorted (feed_hook state evs) \<and> (\<forall>p \<in> set (feed_hook state evs). lo \<le> p \<and> p \<le> 100)"
  using assms
proof (induction evs arbitrary: state lo)
  case Nil
  then show ?case by simp
next
  case (Cons ev evs)
  show ?case
  proof (cases ev)
    case Finished
    have "sorted (feed_hook (Some 100) evs) \<and>
          (\<forall>p \<in> set (feed_hook (Some 100) evs). 100 \<le> p \<and> p \<le> 100)"
      using Cons.IH [of 100 "Some 100"] by simp
    then show ?thesis using Finished Cons.prems by auto
  next
    case (Downloading d)
    show ?thesis
    proof (cases "calc_download_progress d state")
      case (Inl e)
      have "feed_hook state (ev # evs) = feed_hook state evs"
        using Inl Downloading feed_hook_Cons_Inl by simp
      then show ?thesis using Cons.IH [OF Cons.prems] by simp
    next
      case (Inr r)
      obtain pct downloaded tot state' where r: "r = ((pct, downloaded, tot), state')"
        by (cases r) auto
      have c: "calc_download_progress d state = Inr ((pct, downloaded, tot), state')"
        using Inr r by simp
      note step = calc_download_progress_step [OF c]
      show ?thesis
      proof (cases pct)
        case None
        with step have "state' = state" by simp
        moreover have "feed_hook state (ev # evs) = feed_hook state' evs"
          using c None Downloading feed_hook_Cons_None by blast
        ultimately show ?thesis using Cons.IH [OF Cons.prems] by simp
      next
        case (Some p)
        with step obtain pct0 where p: "p = settle pct0 state" and s: "state' = Some p" by auto
        have lo: "lo \<le> p" using settle_bounds [of state pct0] Cons.prems p by auto
        have hi: "p \<le> 100" using settle_upper [of pct0 state] Cons.prems p by auto
        have "p = (case state' of None \<Rightarrow> 0 | Some q \<Rightarrow> q)" using s by simp
        from Cons.IH [OF this hi]
        have ih: "sorted (feed_hook state' evs) \<and>
                  (\<forall>q \<in> set (feed_hook state' evs). p \<le> q \<and> q \<le> 100)" .
        have "feed_hook state (ev # evs) = p # feed_hook state' evs"
          using c Some Downloading feed_hook_Cons_Some by blast
        then show ?thesis using ih lo hi by auto
      qed
    qed
  qed
qed

lemma feed_hook_downloading: "feed_hook state (map Downloading ds) = feed_progress state ds"
  by (induction ds arbitrary: state) (auto split: sum.splits option.splits prod.splits)

lemma takeWhile_downloading: "\<exists>ds. takeWhile is_downloading evs = map Downloading ds"
proof (induction evs)
  case Nil
  then show ?case by simp
next
  case (Cons ev evs)
  then obtain ds where ds: "takeWhile is_downloading evs = map Downloading ds" by blast
  show ?case
  proof (cases ev)
    case (Downloading d)
    then have "takeWhile is_downloading (ev # evs) = map Downloading (d # ds)" using ds by simp
    then show ?thesis by blast
  next
    case Finished
    then have "takeWhile is_downloading (ev # evs) = map Downloading []" by simp
    then show ?thesis by blast
  qed
qed

text \<open>
  C2. Whatever downloading signals one job feeds to the calculator, fragment-indexed or
  byte-indexed in any mix and with any regressions, starting from the worker's state
  \<^verbatim>\<open>{"pct": 0}\<close> or from any state the calculator left behind: the percentages it
  computes never decrease, lie between the state's value and 99, and so never are 100.
  With the \<^verbatim>\<open>"finished"\<close> signals of the hook in between, the percentages still never
  decrease, and those computed before the first \<^verbatim>\<open>"finished"\<close> are at most 99.
\<close>

theorem progress_monotone:
  assumes "0 \<le> p0" and "p0 \<le> 99"
  shows "sorted (feed_progress (Some p0) ds) \<and>
         (\<forall>p \<in> set (feed_progress (Some p0) ds). 0 \<le> p \<and> p0 \<le> p \<and> p \<le> 99 \<and> p \<noteq> 100) \<and>
         sorted (feed_hook (Some p0) evs) \<and>
         (\<forall>p \<in> set (feed_hook (Some p0) (takeWhile is_downloading evs)). 0 \<le> p \<and> p \<le> 99)"
proof -
  have a: "sorted (feed_progress (Some p0) ds) \<and>
        (\<forall>p \<in> set (feed_progress (Some p0) ds). p0 \<le> p \<and> p \<le> 99)" for ds
    using feed_progress_bounds [of p0 "Some p0" ds] assms(2) by simp
  have b: "sorted (feed_hook (Some p0) evs)"
    using feed_hook_sorted [of p0 "Some p0" evs] assms(2) by simp
  obtain ds' where "takeWhile is_downloading evs = map Downloading ds'"
    using takeWhile_downloading by blast
  then have c: "feed_hook (Some p0) (takeWhile is_downloading evs) = feed_progress (Some p0) ds'"
    by (simp add: feed_hook_downloading)
  show ?thesis using a [of ds] a [of ds'] b c assms(1) by auto
qed

theorem progress_monotone_witness:
  "feed_progress (Some 0) signals0 = [30, 30, 30, 35, 99, 99] \<and>
   sorted (feed_progress (Some 0) signals0) \<and>
   feed_hook (Some 0) [Downloading (frag_sig 3 10), Finished, Downloading (byte_sig 50 200)] = [30, 100] \<and>
   sorted (feed_hook (Some 0) [Downloading (frag_sig 3 10), Finished, Downloading (byte_sig 50 200)])"
proof -
  have 1: "feed_progress (Some 0) signals0 = [30, 30, 30, 35, 99, 99]"
    by (simp add: signals0_def frag_sig_def byte_sig_def calc_download_progress_def
        fragment_signal_def byte_signal_def pcts settle_def)
  have 2: "feed_hook (Some 0) [Downloading (frag_sig 3 10), Finished, Downloading (byte_sig 50 200)] =
           [30, 100]"
    by (simp add: frag_sig_def byte_sig_def calc_download_progress_def
        fragment_signal_def byte_signal_def pcts settle_def)
  show ?thesis
    using 1 2 progress_monotone [of 0 signals0
        "[Downloading (frag_sig 3 10), Finished, Downloading (byte_sig 50 200)]"]
    by simp
qed

section \<open>Audio Fitter: the chosen rung\<close>














section \<open>Worker: cancellation before error reporting\<close>

lemma remove_prefixed_subset: "set (remove_prefixed removable tmp_id listing fs) \<subseteq> set fs"
proof (induction listing arbitrary: fs)
  case Nil
  then show ?case by simp
next
  case (Cons a listing)
  have "set (remove_prefixed removable tmp_id listing (removeAll a fs)) \<subseteq> set fs"
    using Cons [of "removeAll a fs"] by auto
  then show ?case using Cons [of fs] by simp
qed









section \<open>Size Planner: stable tie-break\<close>












lemma tie_first_wins:
  assumes "first_best gt has_key cs c k" and "\<And>a. \<not> gt a a"
    and "\<And>x k1 k2. has_key x k1 \<Longrightarrow> has_key x k2 \<Longrightarrow> k1 = k2"
  shows "\<exists>before after. cs = before @ c # after \<and> has_key c k \<and>
           (\<forall>x \<in> set before. \<not> has_key x k)"
proof -
  from assms(1) obtain before after where
    s: "cs = before @ c # after" and hk: "has_key c k"
    and b: "\<forall>y \<in> set before. \<exists>ky. has_key y ky \<and> gt k ky"
    unfolding first_best_def by blast
  have "\<forall>x \<in> set before. \<not> has_key x k"
  proof
    fix x assume "x \<in> set before"
    then obtain kx where "has_key x kx" "gt k kx" using b by blast
    then show "\<not> has_key x k" using assms(2,3) by blast
  qed
  then show ?thesis using s hk by blast
qed





end
